theory Spec2Isabelle
  imports Complex_Main "HOL-Library.Word"
begin

section \<open>Data model of \<open>translator_in_real_time.py\<close>\<close>

text \<open>
  The program keeps its recording state in module-level globals that are shared between
  the GUI thread (\<open>start_recording\<close>, \<open>stop_recording\<close>, \<open>on_closing\<close>, \<open>main\<close>) and
  the capture thread (\<open>record_audio\<close>). Every access to them happens inside
  \<open>with record_lock\<close>, so each critical section is modelled as one atomic function on
  the record of globals. Whatever the environment decides (does \<open>p.open\<close> raise, what
  does \<open>stream.read\<close> return, what does the clock show, what does the user answer) is an
  explicit argument of the function, so the model is deterministic and executable.
\<close>

type_synonym byte = "8 word"
type_synonym bytes = "byte list"

text \<open>Audio configuration (lines 30-33). \<open>FORMAT = pyaudio.paInt16\<close>; the sample size that
  \<open>p.get_sample_size(FORMAT)\<close> returns for it is two bytes (16-bit signed samples).\<close>

definition CHUNK :: nat where "CHUNK = 1024"
definition CHANNELS :: nat where "CHANNELS = 1"
definition RATE :: nat where "RATE = 16000"
definition sample_size :: nat where "sample_size = 2"

text \<open>The argument of \<open>time.sleep\<close> at the end of each capture iteration (line 208), as the
  decimal literal of the source and as the IEEE-754 double that the literal denotes.\<close>

definition idle_delay :: real where "idle_delay = 1 / 100"
definition idle_delay_double :: real where "idle_delay_double = 5764607523034235 / 2 ^ 59"

text \<open>One \<open>stream.read(CHUNK)\<close> delivers \<open>CHUNK\<close> frames, that is
  \<open>CHUNK * CHANNELS * sample_size\<close> bytes.\<close>

definition chunk_bytes :: nat where "chunk_bytes = CHUNK * CHANNELS * sample_size"

text \<open>A PyAudio stream object; the flag says whether the device handle behind it is still
  open. The global \<open>stream\<close> is either \<open>None\<close> or a reference to such an object.\<close>

datatype stream_obj = Stream (is_open: bool)

text \<open>The outcome of a call into the environment that may raise.\<close>

datatype 'a attempt = Raised | Returned 'a

record recorder =
  is_recording :: bool
  frames :: "bytes list"
  stream :: "stream_obj option"
  recording_start_time :: real
  exit_event :: bool
  record_lock :: bool

text \<open>The globals as initialised at lines 39-44; \<open>record_lock\<close> is \<open>True\<close> while held.\<close>

definition initial :: recorder where
  "initial = \<lparr> is_recording = False, frames = [], stream = None,
               recording_start_time = 0, exit_event = False, record_lock = False \<rparr>"

text \<open>What the program shows or starts, in the order it does so. A \<open>print\<close> and the
  message box that follows it are one effect.\<close>

datatype effect =
    Log_RecordingStarted
  | Log_RecordingStopped
  | Warning_AlreadyRecording
  | Warning_NotRecording
  | Error_StartFailed
  | Error_StopFailed
  | Error_Malformed
  | Error_WriteBuffer
  | Status_Recording
  | Status_Recorded real
  | Log_ReadError
  | Log_CleanupError
  | Thread_start bytes
  | Root_destroy
  | PyAudio_terminate

text \<open>
  \<open>record_lock = threading.Lock()\<close> is not reentrant: \<open>with record_lock\<close> in a thread that
  already holds the lock never returns. No code path releases the lock other than the
  exit of the \<open>with\<close> block that took it, so a function entered with the lock held blocks
  for ever; that outcome is \<open>Deadlock\<close>, carrying the globals as they stay. A function that
  returns yields its return value, the effects it had and the new globals.
\<close>

datatype 'a outcome = Returns 'a "effect list" recorder | Deadlock recorder


section \<open>The WAV container written and read by \<open>wave\<close>\<close>

text \<open>
  \<open>stop_recording\<close> (lines 170-186) writes the session with the \<open>wave\<close> module of the Python
  standard library and reads it back as a self-check. The definitions below follow
  \<open>Wave_write\<close> and \<open>Wave_read\<close> of \<open>Lib/wave.py\<close> (CPython 3.11) on a little-endian
  machine, at the level of the bytes in the \<open>BytesIO\<close> buffer.
\<close>

datatype py_error = Wave_Error | EOF_Error | Struct_Error | Runtime_Error

text \<open>\<open>struct.pack('<L', v)\<close> and \<open>'<H'\<close>: little-endian, and \<open>struct.error\<close> when the value
  does not fit the field.\<close>

fun le_bytes :: "nat \<Rightarrow> nat \<Rightarrow> bytes" where
  "le_bytes 0 v = []"
| "le_bytes (Suc k) v = word_of_nat (v mod 256) # le_bytes k (v div 256)"

fun le_value :: "bytes \<Rightarrow> nat" where
  "le_value [] = 0"
| "le_value (b # bs) = unat b + 256 * le_value bs"

definition pack_L :: "nat \<Rightarrow> py_error + bytes" where
  "pack_L v = (if v < 2 ^ 32 then Inr (le_bytes 4 v) else Inl Struct_Error)"

definition pack_H :: "nat \<Rightarrow> py_error + bytes" where
  "pack_H v = (if v < 2 ^ 16 then Inr (le_bytes 2 v) else Inl Struct_Error)"

definition tag_RIFF :: bytes where "tag_RIFF = [0x52, 0x49, 0x46, 0x46]"
definition tag_WAVE :: bytes where "tag_WAVE = [0x57, 0x41, 0x56, 0x45]"
definition tag_fmt :: bytes where "tag_fmt = [0x66, 0x6D, 0x74, 0x20]"
definition tag_data :: bytes where "tag_data = [0x64, 0x61, 0x74, 0x61]"

definition WAVE_FORMAT_PCM :: nat where "WAVE_FORMAT_PCM = 1"

text \<open>Sequencing of steps that may raise.\<close>

definition bind_err :: "py_error + 'a \<Rightarrow> ('a \<Rightarrow> py_error + 'b) \<Rightarrow> py_error + 'b" where
  "bind_err r f = (case r of Inl e \<Rightarrow> Inl e | Inr x \<Rightarrow> f x)"

text \<open>\<open>Wave_write._write_header\<close>: the 44 bytes
  \<open>struct.pack('<L4s4sLHHLLHH4s', ...)\<close> after \<open>b'RIFF'\<close>, then the data length.\<close>

definition write_header :: "nat \<Rightarrow> nat \<Rightarrow> nat \<Rightarrow> nat \<Rightarrow> py_error + bytes" where
  "write_header nch sw fr datalength =
     bind_err (pack_L (36 + datalength)) (\<lambda>form_length.
     bind_err (pack_L 16) (\<lambda>fmt_size.
     bind_err (pack_H WAVE_FORMAT_PCM) (\<lambda>format_tag.
     bind_err (pack_H nch) (\<lambda>channels.
     bind_err (pack_L fr) (\<lambda>rate.
     bind_err (pack_L (nch * fr * sw)) (\<lambda>bytes_per_sec.
     bind_err (pack_H (nch * sw)) (\<lambda>block_align.
     bind_err (pack_H (sw * 8)) (\<lambda>bits.
     bind_err (pack_L datalength) (\<lambda>data_length.
       Inr (tag_RIFF @ form_length @ tag_WAVE @ tag_fmt @ fmt_size @ format_tag @ channels
            @ rate @ bytes_per_sec @ block_align @ bits @ tag_data @ data_length))))))))))"

text \<open>\<open>Wave_write._patchheader\<close>: the two length fields, at offsets 4 and 40, are
  overwritten with the number of bytes really written.\<close>

definition patchheader :: "nat \<Rightarrow> bytes \<Rightarrow> py_error + bytes" where
  "patchheader datawritten f =
     bind_err (pack_L (36 + datawritten)) (\<lambda>form_length.
     bind_err (pack_L datawritten) (\<lambda>data_length.
       Inr (take 4 f @ form_length @ take 32 (drop 8 f) @ data_length @ drop 44 f)))"

text \<open>
  Lines 172-176: \<open>setnchannels\<close>, \<open>setsampwidth\<close>, \<open>setframerate\<close>, one \<open>writeframes(data)\<close>
  and the \<open>close\<close> at the exit of the \<open>with\<close> block. \<open>writeframes\<close> writes the header for
  \<open>len(data) // framesize\<close> frames, appends the data and patches the header when the data
  was not a whole number of frames. An exception in any step leaves the \<open>with\<close> block.
\<close>

definition wave_write :: "nat \<Rightarrow> nat \<Rightarrow> nat \<Rightarrow> bytes \<Rightarrow> py_error + bytes" where
  "wave_write nch sw fr data =
     (if nch < 1 then Inl Wave_Error
      else if sw < 1 \<or> 4 < sw then Inl Wave_Error
      else if fr \<le> 0 then Inl Wave_Error
      else
        let nframes = length data div (nch * sw);
            datalength = nframes * nch * sw;
            datawritten = length data
        in bind_err (write_header nch sw fr datalength) (\<lambda>header.
             if datalength \<noteq> datawritten then patchheader datawritten (header @ data)
             else Inr (header @ data)))"

text \<open>
  Reading. \<open>Wave_read.initfp\<close> wraps the buffer in a \<open>_Chunk\<close> for the RIFF chunk and reads
  the inner chunks through it. The RIFF chunk object is determined by the buffer \<open>f\<close>, its
  declared size \<open>sz\<close> and its \<open>size_read\<close> counter \<open>r\<close>; the buffer position is always
  \<open>8 + r\<close>. \<open>riff_read\<close> is \<open>_Chunk.read(n)\<close> on it, with the alignment byte it swallows
  at the end of an odd-sized chunk, and returns the data and the new counter.
\<close>

definition riff_read :: "bytes \<Rightarrow> nat \<Rightarrow> nat \<Rightarrow> nat \<Rightarrow> bytes \<times> nat" where
  "riff_read f sz r n =
     (if sz \<le> r then ([], r)
      else
        let data = take (min n (sz - r)) (drop (8 + r) f);
            r1 = r + length data
        in if r1 = sz \<and> odd sz then (data, r1 + length (take 1 (drop (8 + r1) f)))
           else (data, r1))"

text \<open>\<open>_Chunk.seek(n, 1)\<close> on the RIFF chunk, as \<open>_Chunk.skip\<close> of an inner chunk calls it:
  \<open>RuntimeError\<close> when the target lies beyond the declared size.\<close>

definition riff_seek_cur :: "nat \<Rightarrow> nat \<Rightarrow> nat \<Rightarrow> py_error + nat" where
  "riff_seek_cur sz r n = (if sz < r + n then Inl Runtime_Error else Inr (r + n))"

text \<open>The constructor of an inner \<open>_Chunk\<close>: four bytes of name and four of size, \<open>EOFError\<close>
  when either is short. Returns name, size and the new counter.\<close>

definition chunk_init :: "bytes \<Rightarrow> nat \<Rightarrow> nat \<Rightarrow> (bytes \<times> nat \<times> nat) option" where
  "chunk_init f sz r =
     (let (name, r1) = riff_read f sz r 4 in
      if length name < 4 then None
      else
        let (size_field, r2) = riff_read f sz r1 4 in
        if length size_field < 4 then None
        else Some (name, le_value size_field, r2))"

record fmt_info =
  nchannels :: nat
  framerate :: nat
  sampwidth :: nat

text \<open>\<open>Wave_read._read_fmt_chunk\<close> on an inner chunk of size \<open>csize\<close> that starts at counter
  \<open>r\<close>: \<open>chunk.read(14)\<close>, then \<open>chunk.read(2)\<close> for the bits per sample. Returns the format
  and the counter after the two reads.\<close>

definition read_fmt_chunk :: "bytes \<Rightarrow> nat \<Rightarrow> nat \<Rightarrow> nat \<Rightarrow> py_error + (fmt_info \<times> nat)" where
  "read_fmt_chunk f sz r csize =
     (let (d14, r1) = riff_read f sz r (min 14 csize) in
      if length d14 < 14 then Inl EOF_Error
      else
        let wFormatTag = le_value (take 2 d14);
            nch = le_value (take 2 (drop 2 d14));
            fr = le_value (take 4 (drop 4 d14))
        in if wFormatTag = WAVE_FORMAT_PCM then
             (let (d2, r2) = riff_read f sz r1 (min 2 (csize - 14)) in
              if length d2 < 2 then Inl EOF_Error
              else
                let sw = (le_value d2 + 7) div 8 in
                if sw = 0 then Inl Wave_Error
                else if nch = 0 then Inl Wave_Error
                else Inr (\<lparr> nchannels = nch, framerate = fr, sampwidth = sw \<rparr>, r2))
           else Inl Wave_Error)"

record wave_read =
  fmt :: fmt_info
  nframes :: nat
  data_start :: nat
  data_size :: nat
  riff_size :: nat
  buffer :: bytes

text \<open>Reads only move the counter forward; a chunk header takes eight bytes.\<close>

lemma riff_read_mono: "riff_read f sz r n = (d, r') \<Longrightarrow> r + length d \<le> r'"
  by (auto simp: riff_read_def Let_def split: if_splits)

lemma chunk_init_advances:
  assumes "chunk_init f sz r = Some (name, csize, r')"
  shows "r + 8 \<le> r'"
proof -
  obtain n1 r1 where a: "riff_read f sz r 4 = (n1, r1)" by (cases "riff_read f sz r 4")
  obtain n2 r2 where b: "riff_read f sz r1 4 = (n2, r2)" by (cases "riff_read f sz r1 4")
  from assms a b have l: "4 \<le> length n1" "4 \<le> length n2" "r' = r2"
    by (auto simp: chunk_init_def split: if_splits)
  from riff_read_mono [OF a] riff_read_mono [OF b] l show ?thesis by simp
qed

lemma read_fmt_chunk_mono:
  assumes "read_fmt_chunk f sz r csize = Inr (info, r')"
  shows "r \<le> r'"
proof -
  obtain d1 r1 where a: "riff_read f sz r (min 14 csize) = (d1, r1)"
    by (cases "riff_read f sz r (min 14 csize)")
  obtain d2 r2 where b: "riff_read f sz r1 (min 2 (csize - 14)) = (d2, r2)"
    by (cases "riff_read f sz r1 (min 2 (csize - 14))")
  from assms a b have "r' = r2"
    by (auto simp: read_fmt_chunk_def Let_def split: if_splits)
  with riff_read_mono [OF a] riff_read_mono [OF b] show ?thesis by simp
qed

text \<open>The \<open>while 1\<close> loop of \<open>initfp\<close>. It ends at the data chunk, at the end of the RIFF
  chunk, or with an exception; every other round moves the counter forward by at least the
  eight bytes of a chunk header, and never beyond the declared size.\<close>

function scan_chunks :: "bytes \<Rightarrow> nat \<Rightarrow> fmt_info option \<Rightarrow> nat \<Rightarrow> py_error + wave_read" where
  "scan_chunks f sz fmt_read r =
     (case chunk_init f sz r of
        None \<Rightarrow> Inl Wave_Error
      | Some (name, csize, r1) \<Rightarrow>
          if name = tag_fmt then
            (case read_fmt_chunk f sz r1 csize of
               Inl e \<Rightarrow> Inl e
             | Inr (info, r2) \<Rightarrow>
                 (case riff_seek_cur sz r2 (csize - 16 + csize mod 2) of
                    Inl e \<Rightarrow> Inl e
                  | Inr r3 \<Rightarrow> scan_chunks f sz (Some info) r3))
          else if name = tag_data then
            (case fmt_read of
               None \<Rightarrow> Inl Wave_Error
             | Some info \<Rightarrow>
                 Inr \<lparr> fmt = info, nframes = csize div (nchannels info * sampwidth info),
                       data_start = r1, data_size = csize, riff_size = sz, buffer = f \<rparr>)
          else
            (case riff_seek_cur sz r1 (csize + csize mod 2) of
               Inl e \<Rightarrow> Inl e
             | Inr r3 \<Rightarrow> scan_chunks f sz fmt_read r3))"
  by pat_completeness auto
termination
  apply (relation "measure (\<lambda>(f, sz, fmt_read, r). Suc sz - r)")
    apply simp
   apply (auto simp: riff_seek_cur_def split: if_splits
               dest!: chunk_init_advances read_fmt_chunk_mono)
  done


declare scan_chunks.simps [simp del]

text \<open>\<open>wave.open(audio_buffer, "rb")\<close>: the RIFF chunk header (\<open>EOFError\<close> when short), the
  form type, then the chunk loop.\<close>

definition wave_open_read :: "bytes \<Rightarrow> py_error + wave_read" where
  "wave_open_read f =
     (if length (take 4 f) < 4 \<or> length (take 4 (drop 4 f)) < 4 then Inl EOF_Error
      else
        let sz = le_value (take 4 (drop 4 f)) in
        if take 4 f \<noteq> tag_RIFF then Inl Wave_Error
        else
          let (form, r) = riff_read f sz 0 4 in
          if form \<noteq> tag_WAVE then Inl Wave_Error
          else scan_chunks f sz None r)"

text \<open>\<open>Wave_read.readframes(n)\<close> right after opening: one read of \<open>n * framesize\<close> bytes from
  the data chunk, which never passes the size the chunk declares.\<close>

definition readframes :: "wave_read \<Rightarrow> nat \<Rightarrow> bytes" where
  "readframes w n =
     (if n = 0 then []
      else fst (riff_read (buffer w) (riff_size w) (data_start w)
                  (min (n * (nchannels (fmt w) * sampwidth (fmt w))) (data_size w))))"

section \<open>The recording state machine\<close>

text \<open>\<open>with record_lock:\<close> around a block.\<close>

definition with_record_lock :: "(recorder \<Rightarrow> 'a outcome) \<Rightarrow> recorder \<Rightarrow> 'a outcome" where
  "with_record_lock body s =
     (if record_lock s then Deadlock s
      else
        (case body (s\<lparr>record_lock := True\<rparr>) of
           Returns v es s' \<Rightarrow> Returns v es (s'\<lparr>record_lock := False\<rparr>)
         | Deadlock s' \<Rightarrow> Deadlock s'))"

text \<open>\<open>start_recording\<close> (lines 121-143). \<open>opened\<close> says whether \<open>p.open\<close> returns a stream
  or raises, \<open>now\<close> is what \<open>time.time()\<close> returns.\<close>

definition start_recording :: "unit attempt \<Rightarrow> real \<Rightarrow> recorder \<Rightarrow> unit outcome" where
  "start_recording opened now =
     with_record_lock (\<lambda>s.
       if is_recording s then Returns () [Warning_AlreadyRecording] s
       else
         let s1 = s\<lparr>is_recording := True, frames := []\<rparr> in
         (case opened of
            Returned _ \<Rightarrow>
              Returns () [Log_RecordingStarted, Status_Recording]
                (s1\<lparr>stream := Some (Stream True), recording_start_time := now\<rparr>)
          | Raised \<Rightarrow>
              Returns () [Log_RecordingStarted, Error_StartFailed]
                (s1\<lparr>is_recording := False\<rparr>)))"

text \<open>
  The critical section of \<open>stop_recording\<close> (lines 148-167). The value returned says
  whether a \<open>return\<close> statement was executed inside the block. \<open>closing\<close> says whether
  \<open>stream.stop_stream(); stream.close()\<close> goes through on an open stream; with \<open>stream\<close>
  being \<open>None\<close> or a stream that is already closed the call raises by itself. The \<open>finally\<close> clause clears \<open>stream\<close> on both paths.
\<close>

definition stop_section :: "unit attempt \<Rightarrow> real \<Rightarrow> recorder \<Rightarrow> bool outcome" where
  "stop_section closing now s =
     (if \<not> is_recording s then Returns True [Warning_NotRecording] s
      else
        let s1 = s\<lparr>is_recording := False\<rparr> in
        (case (stream s1, closing) of
           (Some (Stream True), Returned _) \<Rightarrow>
             Returns False
               [Log_RecordingStopped, Status_Recorded (now - recording_start_time s1)]
               (s1\<lparr>stream := None\<rparr>)
         | _ \<Rightarrow>
             Returns True [Log_RecordingStopped, Error_StopFailed] (s1\<lparr>stream := None\<rparr>)))"

text \<open>
  Lines 169-194, after the lock is released: \<open>b''.join(frames)\<close> is written as a WAV file
  into a buffer, the buffer is read back (\<open>getnframes\<close>), and a thread running
  \<open>process_audio\<close> on the buffer is started. \<open>wave.Error\<close> from the read-back is reported as
  malformed audio; any other exception is caught by the outer handler.
\<close>

definition encode_and_dispatch :: "bytes list \<Rightarrow> effect list" where
  "encode_and_dispatch fs =
     (case wave_write CHANNELS sample_size RATE (concat fs) of
        Inl e \<Rightarrow> [Error_WriteBuffer]
      | Inr audio_buffer \<Rightarrow>
          (case wave_open_read audio_buffer of
             Inl Wave_Error \<Rightarrow> [Error_Malformed]
           | Inl _ \<Rightarrow> [Error_WriteBuffer]
           | Inr wf_check \<Rightarrow> [Thread_start audio_buffer]))"

definition stop_recording :: "unit attempt \<Rightarrow> real \<Rightarrow> recorder \<Rightarrow> unit outcome" where
  "stop_recording closing now s =
     (case with_record_lock (stop_section closing now) s of
        Deadlock s' \<Rightarrow> Deadlock s'
      | Returns returned es s' \<Rightarrow>
          if returned then Returns () es s'
          else Returns () (es @ encode_and_dispatch (frames s')) s')"

text \<open>
  One round of the loop of \<open>record_audio\<close> (lines 200-207). \<open>rd\<close> is what
  \<open>stream.read(CHUNK, exception_on_overflow=False)\<close> does on an open stream; on a closed
  stream the read raises. The handler calls \<open>stop_recording()\<close> from inside the
  \<open>with record_lock\<close> block; \<open>closing\<close> and \<open>now\<close> are the environment of that call.
\<close>

definition record_audio_round ::
  "bytes attempt \<Rightarrow> unit attempt \<Rightarrow> real \<Rightarrow> recorder \<Rightarrow> unit outcome" where
  "record_audio_round rd closing now =
     with_record_lock (\<lambda>s.
       if is_recording s \<and> stream s \<noteq> None then
         (case (stream s, rd) of
            (Some (Stream True), Returned data) \<Rightarrow>
              Returns () [] (s\<lparr>frames := frames s @ [data]\<rparr>)
          | _ \<Rightarrow>
              (case stop_recording closing now s of
                 Deadlock s' \<Rightarrow> Deadlock s'
               | Returns _ es s' \<Rightarrow> Returns () (Log_ReadError # es) s'))
       else Returns () [] s)"

text \<open>The loop of \<open>record_audio\<close>, run on its own for as many rounds as the list of
  environment responses is long, or until \<open>exit_event\<close> is set.\<close>

fun record_audio :: "(bytes attempt \<times> unit attempt \<times> real) list \<Rightarrow> recorder \<Rightarrow> unit outcome" where
  "record_audio [] s = Returns () [] s"
| "record_audio ((rd, closing, now) # env) s =
     (if exit_event s then Returns () [] s
      else
        (case record_audio_round rd closing now s of
           Deadlock s' \<Rightarrow> Deadlock s'
         | Returns _ es s' \<Rightarrow>
             (case record_audio env s' of
                Deadlock s'' \<Rightarrow> Deadlock s''
              | Returns _ es' s'' \<Rightarrow> Returns () (es @ es') s'')))"

text \<open>\<open>on_closing\<close> (lines 210-218); \<open>confirmed\<close> is the answer to \<open>askokcancel\<close>.\<close>

definition on_closing :: "bool \<Rightarrow> unit attempt \<Rightarrow> real \<Rightarrow> recorder \<Rightarrow> unit outcome" where
  "on_closing confirmed closing now s =
     (if is_recording s then
        (if confirmed then
           (case stop_recording closing now s of
              Deadlock s' \<Rightarrow> Deadlock s'
            | Returns _ es s' \<Rightarrow> Returns () (es @ [Root_destroy]) (s'\<lparr>exit_event := True\<rparr>))
         else Returns () [] s)
      else Returns () [Root_destroy] (s\<lparr>exit_event := True\<rparr>))"

text \<open>The \<open>finally\<close> clause of \<open>main\<close> (lines 262-272): a stream that is still referenced
  is stopped and closed; neither \<open>stream\<close> nor \<open>is_recording\<close> is assigned.\<close>

definition main_finally :: "unit attempt \<Rightarrow> recorder \<Rightarrow> unit outcome" where
  "main_finally closing s =
     (case with_record_lock (\<lambda>s1.
             (case stream s1 of
                None \<Rightarrow> Returns () [] s1
              | Some st \<Rightarrow>
                  (case (st, closing) of
                     (Stream True, Returned _) \<Rightarrow> Returns () [] (s1\<lparr>stream := Some (Stream False)\<rparr>)
                   | _ \<Rightarrow> Returns () [Log_CleanupError] s1))) s of
        Deadlock s' \<Rightarrow> Deadlock s'
      | Returns _ es s' \<Rightarrow> Returns () (es @ [PyAudio_terminate]) s')"

section \<open>The processing pipeline\<close>

text \<open>The value of an attribute that the code formats into a string: \<open>None\<close> or a string.\<close>

datatype pyvalue = Py_None | Py_str string

text \<open>
  What \<open>client.audio.transcriptions.create\<close> returns: a Python value that is truthy or
  not and has a \<open>text\<close> attribute, with some value, or not (\<open>None\<close> itself is
  \<open>Response False None\<close>).
\<close>

datatype response = Response (is_truthy: bool) (text_attr: "pyvalue option")

text \<open>
  The exception of a request that fails, as the handler of \<open>process_audio\<close> (lines
  110-117) looks at it: either it has no \<open>response.status_code\<close>, or it has one, and then
  \<open>e.response.json().get('error', {}).get('message', 'Unknown error')\<close> gives a message or
  raises in its turn (a body that is not JSON, or not a dictionary of dictionaries).
\<close>

datatype request_error = Plain_error | Status_error "string attempt"

datatype pevent =
    Log_EmptyAudio
  | Call_transcription bytes
  | Log_TranscriptionFailed
  | Log_YouSaid pyvalue
  | Call_translation pyvalue
  | Log_TranslationError
  | Log_Translated string
  | Log_TranslationFailed
  | Log_TotalDuration
  | Log_ProcessingError
  | Log_ApiError string
  | Buffer_close
  | Unhandled_exception

text \<open>\<open>str.strip()\<close>: leading and trailing whitespace removed.\<close>

definition is_space :: "char \<Rightarrow> bool" where
  "is_space c = (of_char c \<in> {9, 10, 11, 12, 13, 28, 29, 30, 31, 32, 133, 160 :: nat})"

definition strip :: "string \<Rightarrow> string" where
  "strip t = rev (dropWhile is_space (rev (dropWhile is_space t)))"

text \<open>\<open>translate_text\<close> (lines 50-67). The text is formatted into the prompt whatever it
  is. \<open>reply\<close> is the content of the first choice of the chat completion, or an exception
  anywhere in the \<open>try\<close> block, which the function catches.\<close>

definition translate_text :: "pyvalue \<Rightarrow> string attempt \<Rightarrow> pevent list \<times> string option" where
  "translate_text t reply =
     (case reply of
        Returned content \<Rightarrow> ([Call_translation t], Some (strip content))
      | Raised \<Rightarrow> ([Call_translation t, Log_TranslationError], None))"

text \<open>
  \<open>process_audio\<close> (lines 69-119) on the bytes of the buffer. The time stamps it takes
  only feed the durations it prints and are left out. \<open>transcribed\<close> is the outcome of the
  transcription request, \<open>reply\<close> that of the translation request. The \<open>finally\<close> clause
  closes the buffer on every path; when the handler raises, the exception leaves the
  function after that.
\<close>

definition process_audio ::
  "bytes \<Rightarrow> request_error + response \<Rightarrow> string attempt \<Rightarrow> pevent list" where
  "process_audio audio_data transcribed reply =
     (if audio_data = [] then [Log_EmptyAudio, Buffer_close]
      else
        Call_transcription audio_data #
        (case transcribed of
           Inl Plain_error \<Rightarrow> [Log_ProcessingError, Buffer_close]
         | Inl (Status_error (Returned error_message)) \<Rightarrow>
             [Log_ApiError error_message, Buffer_close]
         | Inl (Status_error Raised) \<Rightarrow> [Buffer_close, Unhandled_exception]
         | Inr transcription \<Rightarrow>
             (case text_attr transcription of
                None \<Rightarrow> [Log_TranscriptionFailed, Buffer_close]
              | Some t \<Rightarrow>
                  if \<not> is_truthy transcription then [Log_TranscriptionFailed, Buffer_close]
                  else
                    let (es, translated_text) = translate_text t reply in
                    Log_YouSaid t # es @
                    (case translated_text of
                       None \<Rightarrow> [Log_TranslationFailed]
                     | Some tt \<Rightarrow> if tt = [] then [Log_TranslationFailed] else [Log_Translated tt])
                    @ [Log_TotalDuration, Buffer_close])))"

section \<open>Interleavings of the lock-guarded operations\<close>

text \<open>
  The GUI callbacks and the rounds of the capture loop exclude each other through
  \<open>record_lock\<close>, and the GUI thread runs one callback at a time, so a run of the program
  up to shutdown is a sequence of these operations, each with what the environment does
  during it.
\<close>

datatype command =
    Start_recording "unit attempt" real
  | Stop_recording "unit attempt" real
  | Capture_round "bytes attempt" "unit attempt" real
  | On_closing bool "unit attempt" real

fun perform :: "command \<Rightarrow> recorder \<Rightarrow> unit outcome" where
  "perform (Start_recording opened now) s = start_recording opened now s"
| "perform (Stop_recording closing now) s = stop_recording closing now s"
| "perform (Capture_round rd closing now) s = record_audio_round rd closing now s"
| "perform (On_closing confirmed closing now) s = on_closing confirmed closing now s"

fun perform_all :: "command list \<Rightarrow> recorder \<Rightarrow> unit outcome" where
  "perform_all [] s = Returns () [] s"
| "perform_all (c # cs) s =
     (case perform c s of
        Deadlock s' \<Rightarrow> Deadlock s'
      | Returns _ es s' \<Rightarrow>
          (case perform_all cs s' of
             Deadlock s'' \<Rightarrow> Deadlock s''
           | Returns _ es' s'' \<Rightarrow> Returns () (es @ es') s''))"

text \<open>The relation between \<open>is_recording\<close> and \<open>stream\<close>: the weaker one only looks at
  whether \<open>stream\<close> is \<open>None\<close>, the stronger one also at whether the stream is open.\<close>

definition handle_matches_flag :: "recorder \<Rightarrow> bool" where
  "handle_matches_flag s = (is_recording s = (stream s \<noteq> None))"

definition open_while_recording :: "recorder \<Rightarrow> bool" where
  "open_while_recording s = (stream s = (if is_recording s then Some (Stream True) else None))"

section \<open>Derived constants and example states\<close>

text \<open>The globals right after a successful \<open>start_recording\<close> at time 0 from the initial
  state, and the same with one chunk of silence captured.\<close>

definition session_open :: recorder where
  "session_open = \<lparr> is_recording = True, frames = [], stream = Some (Stream True),
                    recording_start_time = 0, exit_event = False, record_lock = False \<rparr>"

definition silence :: bytes where
  "silence = replicate chunk_bytes 0"

definition session_one_chunk :: recorder where
  "session_one_chunk = session_open\<lparr>frames := [silence]\<rparr>"

text \<open>The 44 header bytes that \<open>write_header\<close> produces for the fixed configuration
  (one channel, two bytes per sample, 16000 Hz) and \<open>n\<close> bytes of data; see
  \<open>write_header_session\<close>.\<close>

definition session_header :: "nat \<Rightarrow> bytes" where
  "session_header n =
     tag_RIFF @ le_bytes 4 (36 + n) @ tag_WAVE @ tag_fmt @ le_bytes 4 16 @ le_bytes 2 1
     @ le_bytes 2 1 @ le_bytes 4 16000 @ le_bytes 4 32000 @ le_bytes 2 2 @ le_bytes 2 16
     @ tag_data @ le_bytes 4 n"

section \<open>Properties of the state machine\<close>

lemma session_open_reached:
  "start_recording (Returned ()) 0 initial
     = Returns () [Log_RecordingStarted, Status_Recording] session_open"
  by (simp add: start_recording_def with_record_lock_def initial_def session_open_def)

text \<open>
  Claim C6. \<open>start_recording\<close> called while a recording is in progress (and once it has
  the lock) only shows the warning that a recording is already in progress: the frame
  buffer, the session start time, the recording flag and every other global are exactly
  as before.
\<close>

theorem start_while_recording_changes_nothing:
  assumes "is_recording s" and "\<not> record_lock s"
  shows "start_recording opened now s = Returns () [Warning_AlreadyRecording] s"
  using assms by (simp add: start_recording_def with_record_lock_def)

theorem start_while_recording_witness:
  "is_recording session_one_chunk \<and> \<not> record_lock session_one_chunk
   \<and> start_recording (Returned ()) 7 session_one_chunk
       = Returns () [Warning_AlreadyRecording] session_one_chunk"
  using start_while_recording_changes_nothing [of session_one_chunk "Returned ()" 7]
  by (simp add: session_one_chunk_def session_open_def)

text \<open>What \<open>stop_recording\<close> leaves behind during a recording.\<close>

lemma stop_recording_idle:
  assumes "is_recording s" and "\<not> record_lock s"
  shows "stop_recording Raised now s
           = Returns () [Log_RecordingStopped, Error_StopFailed]
               (s\<lparr>is_recording := False, stream := None\<rparr>)
         \<and> (\<exists>es s'. stop_recording closing now s = Returns () es s'
                \<and> \<not> is_recording s' \<and> stream s' = None)"
proof -
  consider "stream s = None" | "stream s = Some (Stream True)" | "stream s = Some (Stream False)"
    by (metis (full_types) option.exhaust stream_obj.exhaust)
  then show ?thesis
  proof cases
    case 1
    with assms show ?thesis
      by (cases closing)
         (simp_all add: stop_recording_def with_record_lock_def stop_section_def)
  next
    case 2
    with assms show ?thesis
      by (cases closing)
         (simp_all add: stop_recording_def with_record_lock_def stop_section_def)
  next
    case 3
    with assms show ?thesis
      by (cases closing)
         (simp_all add: stop_recording_def with_record_lock_def stop_section_def)
  qed
qed

text \<open>
  Claim C8. \<open>stop_recording\<close> called while recording: when stopping or closing the stream
  raises, the failure is reported and the function returns with the recording flag
  cleared and \<open>stream\<close> reset to \<open>None\<close>; and whatever the stream does, the function returns
  and the state it leaves is not the recording state.
\<close>

theorem stop_always_leaves_idle:
  assumes "is_recording s" and "\<not> record_lock s"
  shows "stop_recording Raised now s
           = Returns () [Log_RecordingStopped, Error_StopFailed]
               (s\<lparr>is_recording := False, stream := None\<rparr>)
         \<and> (\<exists>es s'. stop_recording closing now s = Returns () es s'
                \<and> \<not> is_recording s' \<and> stream s' = None)"
  using assms by (rule stop_recording_idle)

theorem stop_always_leaves_idle_witness:
  "is_recording session_one_chunk \<and> \<not> record_lock session_one_chunk
   \<and> stop_recording Raised 3 session_one_chunk
       = Returns () [Log_RecordingStopped, Error_StopFailed]
           (session_one_chunk\<lparr>is_recording := False, stream := None\<rparr>)
   \<and> (\<exists>es s'. stop_recording Raised 3 session_one_chunk = Returns () es s'
          \<and> \<not> is_recording s' \<and> stream s' = None)"
  using stop_always_leaves_idle [of session_one_chunk 3 Raised]
  by (simp add: session_one_chunk_def session_open_def)

text \<open>
  Claim C9. The idle delay of the capture loop, 0.01 seconds, is strictly smaller than
  the time one chunk takes to fill at the configured rate, \<open>CHUNK / RATE\<close> = 1024 / 16000
  = 0.064 seconds. This holds for the decimal literal and for the double it denotes.
\<close>

theorem idle_delay_below_chunk_time:
  "idle_delay < real CHUNK / real RATE
   \<and> idle_delay_double < real CHUNK / real RATE
   \<and> real CHUNK / real RATE = 64 / 1000"
  by (simp add: idle_delay_def idle_delay_double_def CHUNK_def RATE_def)

section \<open>Properties of the encoder\<close>

lemma length_le_bytes [simp]: "length (le_bytes k v) = k"
  by (induction k arbitrary: v) auto

lemma le_value_le_bytes: "le_value (le_bytes k v) = v mod 256 ^ k"
proof (induction k arbitrary: v)
  case 0
  show ?case by simp
next
  case (Suc k)
  have "unat (word_of_nat (v mod 256) :: byte) = v mod 256"
    by (simp add: unat_of_nat)
  then show ?case
    using Suc [of "v div 256"] by (simp add: mod_mult2_eq)
qed

lemma write_header_session:
  "36 + n < 2 ^ 32 \<Longrightarrow> write_header CHANNELS sample_size RATE n = Inr (session_header n)"
  by (simp add: write_header_def bind_err_def pack_L_def pack_H_def CHANNELS_def
      sample_size_def RATE_def WAVE_FORMAT_PCM_def session_header_def)

lemma wave_write_session:
  assumes "even (length data)" and "36 + length data < 2 ^ 32"
  shows "wave_write CHANNELS sample_size RATE data = Inr (session_header (length data) @ data)"
proof -
  have "length data div 2 * 2 = length data" using assms(1) by simp
  then have "length data div (CHANNELS * sample_size) * CHANNELS * sample_size = length data"
    by (simp add: CHANNELS_def sample_size_def)
  then show ?thesis
    using write_header_session [OF assms(2)]
    by (simp add: wave_write_def Let_def bind_err_def CHANNELS_def sample_size_def RATE_def)
qed

lemma length_session_header: "length (session_header n) = 44"
  by (simp add: session_header_def tag_RIFF_def tag_WAVE_def tag_fmt_def tag_data_def)


lemma riff_read_inside:
  assumes "even sz" and "r + k \<le> sz" and "8 + r + k \<le> length f" and "0 < k"
  shows "riff_read f sz r k = (take k (drop (8 + r) f), r + k)"
  using assms by (auto simp: riff_read_def Let_def min_def)

lemmas tag_defs = tag_RIFF_def tag_WAVE_def tag_fmt_def tag_data_def

lemma session_fields:
  "take 4 (session_header n @ d) = tag_RIFF"
  "take 4 (drop 4 (session_header n @ d)) = le_bytes 4 (36 + n)"
  "take 4 (drop 8 (session_header n @ d)) = tag_WAVE"
  "take 4 (drop 12 (session_header n @ d)) = tag_fmt"
  "take 4 (drop 16 (session_header n @ d)) = le_bytes 4 16"
  "take 14 (drop 20 (session_header n @ d))
     = le_bytes 2 1 @ le_bytes 2 1 @ le_bytes 4 16000 @ le_bytes 4 32000 @ le_bytes 2 2"
  "take 2 (drop 34 (session_header n @ d)) = le_bytes 2 16"
  "take 4 (drop 36 (session_header n @ d)) = tag_data"
  "take 4 (drop 40 (session_header n @ d)) = le_bytes 4 n"
  "drop 44 (session_header n @ d) = d"
  by (simp_all add: session_header_def tag_defs)


lemma le_value_small [simp]:
  "v < 2 ^ 32 \<Longrightarrow> le_value (le_bytes 4 v) = v"
  "v < 2 ^ 16 \<Longrightarrow> le_value (le_bytes 2 v) = v"
  by (simp_all add: le_value_le_bytes)

lemma session_riff_read:
  assumes "even n" and "r + k \<le> 36" and "0 < k"
  shows "riff_read (session_header n @ d) (36 + n) r k
           = (take k (drop (8 + r) (session_header n @ d)), r + k)"
  using assms by (intro riff_read_inside) (simp_all add: length_session_header)

lemma session_reads:
  assumes "even n"
  shows "riff_read (session_header n @ d) (36 + n) 0 4 = (tag_WAVE, 4)"
    and "riff_read (session_header n @ d) (36 + n) 4 4 = (tag_fmt, 8)"
    and "riff_read (session_header n @ d) (36 + n) 8 4 = (le_bytes 4 16, 12)"
    and "riff_read (session_header n @ d) (36 + n) 12 14
           = (le_bytes 2 1 @ le_bytes 2 1 @ le_bytes 4 16000 @ le_bytes 4 32000 @ le_bytes 2 2, 26)"
    and "riff_read (session_header n @ d) (36 + n) 26 2 = (le_bytes 2 16, 28)"
    and "riff_read (session_header n @ d) (36 + n) 28 4 = (tag_data, 32)"
    and "riff_read (session_header n @ d) (36 + n) 32 4 = (le_bytes 4 n, 36)"
  using assms
  by (simp_all add: session_riff_read session_fields del: take_append drop_append)

lemma session_chunk_fmt:
  "even n \<Longrightarrow> chunk_init (session_header n @ d) (36 + n) 4 = Some (tag_fmt, 16, 12)"
  by (simp add: chunk_init_def session_reads tag_defs)

lemma session_chunk_data:
  "even n \<Longrightarrow> n < 2 ^ 32 \<Longrightarrow>
   chunk_init (session_header n @ d) (36 + n) 28 = Some (tag_data, n, 36)"
  by (simp add: chunk_init_def session_reads tag_defs)

lemma session_fmt:
  "even n \<Longrightarrow> read_fmt_chunk (session_header n @ d) (36 + n) 12 16
     = Inr (\<lparr> nchannels = 1, framerate = 16000, sampwidth = 2 \<rparr>, 28)"
  by (simp add: read_fmt_chunk_def session_reads WAVE_FORMAT_PCM_def)

lemma session_scan:
  assumes "even n" and "n < 2 ^ 32"
  shows "scan_chunks (session_header n @ d) (36 + n) None 4
           = Inr \<lparr> fmt = \<lparr> nchannels = 1, framerate = 16000, sampwidth = 2 \<rparr>,
                   nframes = n div 2, data_start = 36, data_size = n,
                   riff_size = 36 + n, buffer = session_header n @ d \<rparr>"
proof -
  let ?f = "session_header n @ d"
  let ?info = "\<lparr> nchannels = 1, framerate = 16000, sampwidth = 2 \<rparr>"
  have "scan_chunks ?f (36 + n) None 4 = scan_chunks ?f (36 + n) (Some ?info) 28"
    using assms by (subst scan_chunks.simps)
       (simp add: session_chunk_fmt session_fmt riff_seek_cur_def)
  also have "\<dots> = Inr \<lparr> fmt = ?info, nframes = n div 2, data_start = 36, data_size = n,
                        riff_size = 36 + n, buffer = ?f \<rparr>"
    using assms by (subst scan_chunks.simps)
       (simp add: session_chunk_data tag_defs)
  finally show ?thesis .
qed

lemma wave_open_read_session:
  assumes "even n" and "36 + n < 2 ^ 32"
  shows "wave_open_read (session_header n @ d)
           = Inr \<lparr> fmt = \<lparr> nchannels = 1, framerate = 16000, sampwidth = 2 \<rparr>,
                   nframes = n div 2, data_start = 36, data_size = n,
                   riff_size = 36 + n, buffer = session_header n @ d \<rparr>"
proof -
  have "n < 2 ^ 32" using assms(2) by simp
  moreover have "take 4 (session_header n @ d) = tag_RIFF"
    and "take 4 (drop 4 (session_header n @ d)) = le_bytes 4 (36 + n)"
    by (rule session_fields)+
  ultimately show ?thesis
    using assms
    by (simp add: wave_open_read_def session_reads session_scan tag_defs
             del: take_append drop_append)
qed


lemma readframes_session:
  assumes "even (length d)"
  shows "readframes \<lparr> fmt = \<lparr> nchannels = 1, framerate = 16000, sampwidth = 2 \<rparr>,
                      nframes = length d div 2, data_start = 36, data_size = length d,
                      riff_size = 36 + length d, buffer = session_header (length d) @ d \<rparr>
           (length d div 2) = d"
proof (cases "d = []")
  case True
  then show ?thesis by (simp add: readframes_def)
next
  case False
  then have "0 < length d div 2" using assms by (cases d) auto
  moreover have "length d div 2 * 2 = length d" using assms by simp
  ultimately show ?thesis
    using False assms
    by (simp add: readframes_def riff_read_def Let_def length_session_header)
qed

lemma encode_and_dispatch_session:
  assumes "even (length (concat fs))" and "36 + length (concat fs) < 2 ^ 32"
  shows "encode_and_dispatch fs
           = [Thread_start (session_header (length (concat fs)) @ concat fs)]"
  using assms
  by (simp add: encode_and_dispatch_def wave_write_session wave_open_read_session)

lemma length_concat_chunks:
  "\<forall>c \<in> set fs. length c = chunk_bytes \<Longrightarrow> length (concat fs) = chunk_bytes * length fs"
  by (induction fs) auto

lemma chunk_bytes_value: "chunk_bytes = 2048"
  by (simp add: chunk_bytes_def CHUNK_def CHANNELS_def sample_size_def)

text \<open>
  Claim C4, amended. For every sequence of chunks of \<open>chunk_bytes\<close> bytes each whose total
  size leaves the RIFF length field below \<open>2 ^ 32\<close>, \<open>wave_write\<close> succeeds, and reading
  its output back gives one channel, 16000 Hz, two bytes (16 bits) per sample,
  \<open>CHUNK\<close> frames per chunk, and as payload the chunks concatenated in their order.
\<close>

theorem session_round_trip:
  assumes "\<forall>c \<in> set fs. length c = chunk_bytes"
      and "36 + chunk_bytes * length fs < 2 ^ 32"
  shows "\<exists>audio_buffer w.
           wave_write CHANNELS sample_size RATE (concat fs) = Inr audio_buffer
         \<and> wave_open_read audio_buffer = Inr w
         \<and> nchannels (fmt w) = CHANNELS
         \<and> framerate (fmt w) = RATE
         \<and> sampwidth (fmt w) = sample_size
         \<and> nframes w = CHUNK * length fs
         \<and> readframes w (nframes w) = concat fs
         \<and> length (readframes w (nframes w)) = chunk_bytes * length fs"
proof -
  let ?d = "concat fs"
  have len: "length ?d = chunk_bytes * length fs"
    using assms(1) by (rule length_concat_chunks)
  then have ev: "even (length ?d)" by (simp add: chunk_bytes_value)
  have bound: "36 + length ?d < 2 ^ 32" using assms(2) len by simp
  have half: "length ?d div 2 = CHUNK * length fs"
    using len by (simp add: chunk_bytes_value CHUNK_def)
  show ?thesis
    using wave_write_session [OF ev bound] wave_open_read_session [OF ev bound, of ?d]
          readframes_session [OF ev] half len
    by (simp add: CHANNELS_def RATE_def sample_size_def)
qed


theorem session_round_trip_witness:
  "length silence = chunk_bytes
   \<and> 36 + chunk_bytes * length [silence, silence] < 2 ^ 32
   \<and> (\<exists>audio_buffer w.
           wave_write CHANNELS sample_size RATE (concat [silence, silence]) = Inr audio_buffer
         \<and> wave_open_read audio_buffer = Inr w
         \<and> nchannels (fmt w) = CHANNELS
         \<and> framerate (fmt w) = RATE
         \<and> sampwidth (fmt w) = sample_size
         \<and> nframes w = CHUNK * length [silence, silence]
         \<and> readframes w (nframes w) = concat [silence, silence]
         \<and> length (readframes w (nframes w)) = chunk_bytes * length [silence, silence])"
proof -
  have a: "\<forall>c \<in> set [silence, silence]. length c = chunk_bytes"
    by (simp add: silence_def)
  have b: "36 + chunk_bytes * length [silence, silence] < 2 ^ 32"
    by (simp add: chunk_bytes_value)
  have c: "length silence = chunk_bytes" by (simp add: silence_def)
  from session_round_trip [OF a b] b c show ?thesis by blast
qed

text \<open>
  Claim C4 as stated, for every sequence of chunks, fails: 2097152 chunks (about 37 hours
  of audio) are \<open>2 ^ 32\<close> bytes, \<open>struct.pack('<L', ...)\<close> raises, and \<open>stop_recording\<close>
  reports that the audio buffer could not be written; there is no container to parse.
\<close>

theorem long_session_not_encodable:
  "length silence = chunk_bytes
   \<and> wave_write CHANNELS sample_size RATE (concat (replicate 2097152 silence)) = Inl Struct_Error
   \<and> encode_and_dispatch (replicate 2097152 silence) = [Error_WriteBuffer]"
proof -
  have len: "length (concat (replicate 2097152 silence)) = 4294967296"
    by (simp add: length_concat sum_list_replicate silence_def chunk_bytes_value)
  have w: "wave_write CHANNELS sample_size RATE (concat (replicate 2097152 silence)) = Inl Struct_Error"
    by (simp add: wave_write_def Let_def len write_header_def bind_err_def pack_L_def
                  CHANNELS_def sample_size_def RATE_def)
  show ?thesis
    by (simp add: w encode_and_dispatch_def) (simp add: silence_def)
qed

section \<open>The capture loop and the lock\<close>

lemma stop_recording_lock_held:
  "record_lock s \<Longrightarrow> stop_recording closing now s = Deadlock s"
  by (simp add: stop_recording_def with_record_lock_def)

text \<open>
  Claim C1 (the code does not do this). When \<open>stream.read\<close> raises during a recording,
  the handler of \<open>record_audio\<close> calls \<open>stop_recording\<close> while the capture thread still
  holds \<open>record_lock\<close>; \<open>stop_recording\<close> blocks on the lock, so the round never ends,
  the loop never reaches its next round, and \<open>is_recording\<close> stays set.
\<close>

theorem read_failure_blocks_for_ever:
  assumes "is_recording s" and "stream s \<noteq> None" and "\<not> record_lock s"
  shows "record_audio_round Raised closing now s = Deadlock (s\<lparr>record_lock := True\<rparr>)
         \<and> record_audio ((Raised, closing, now) # env) (s\<lparr>exit_event := False\<rparr>)
             = Deadlock (s\<lparr>exit_event := False, record_lock := True\<rparr>)"
proof -
  have round: "record_audio_round Raised closing now s' = Deadlock (s'\<lparr>record_lock := True\<rparr>)"
    if "is_recording s'" and "stream s' \<noteq> None" and "\<not> record_lock s'" for s'
    using that
    by (auto simp: record_audio_round_def with_record_lock_def stop_recording_lock_held
             split: stream_obj.splits bool.splits)
  show ?thesis
    using assms round [of s] round [of "s\<lparr>exit_event := False\<rparr>"] by simp
qed

theorem read_failure_blocks_witness:
  "is_recording session_one_chunk \<and> stream session_one_chunk \<noteq> None
   \<and> \<not> record_lock session_one_chunk
   \<and> record_audio_round Raised (Returned ()) 1 session_one_chunk
       = Deadlock (session_one_chunk\<lparr>record_lock := True\<rparr>)
   \<and> is_recording (session_one_chunk\<lparr>record_lock := True\<rparr>)"
  using read_failure_blocks_for_ever [of session_one_chunk "Returned ()" 1 "[]"]
  by (simp add: session_one_chunk_def session_open_def)

text \<open>
  Claim C2 (the code does not do this). Stopping a session with no frames writes a WAV
  file of 44 header bytes and starts the processing thread on it; in \<open>process_audio\<close> the
  test \<open>if not audio_data\<close> is false for these 44 bytes, so the transcription request is
  sent, whatever its outcome (shown in full for a request that raises).
\<close>

theorem empty_session_is_transcribed:
  "stop_recording (Returned ()) 2 session_open
     = Returns () [Log_RecordingStopped, Status_Recorded 2, Thread_start (session_header 0)]
         (session_open\<lparr>is_recording := False, stream := None\<rparr>)
   \<and> length (session_header 0) = 44
   \<and> process_audio (session_header 0) (Inl Plain_error) reply
       = [Call_transcription (session_header 0), Log_ProcessingError, Buffer_close]
   \<and> hd (process_audio (session_header 0) transcribed reply)
       = Call_transcription (session_header 0)"
proof -
  have e: "encode_and_dispatch [] = [Thread_start (session_header 0)]"
    using encode_and_dispatch_session [of "[]"] by simp
  have n: "session_header 0 \<noteq> []"
    using length_session_header [of 0] by auto
  show ?thesis
    by (simp add: stop_recording_def with_record_lock_def stop_section_def session_open_def
                  e n process_audio_def length_session_header)
qed

section \<open>Sessions from start to stop\<close>

lemma capture_all:
  assumes "is_recording s" and "stream s = Some (Stream True)"
      and "\<not> record_lock s" and "\<not> exit_event s"
  shows "record_audio (map (\<lambda>(d, c, t). (Returned d, c, t)) env) s
           = Returns () [] (s\<lparr>frames := frames s @ map fst env\<rparr>)"
  using assms
proof (induction env arbitrary: s)
  case Nil
  then show ?case by simp
next
  case (Cons x env)
  obtain d c t where x: "x = (d, c, t)" by (cases x)
  let ?s1 = "s\<lparr>frames := frames s @ [d]\<rparr>"
  have round: "record_audio_round (Returned d) c t s = Returns () [] ?s1"
    using Cons.prems by (simp add: record_audio_round_def with_record_lock_def)
  have "record_audio (map (\<lambda>(d, c, t). (Returned d, c, t)) env) ?s1
          = Returns () [] (?s1\<lparr>frames := frames ?s1 @ map fst env\<rparr>)"
    using Cons.prems by (intro Cons.IH) simp_all
  then show ?case
    using Cons.prems round by (simp add: x)
qed

text \<open>
  Claim C5. From any idle state, a successful \<open>start_recording\<close>, then K rounds of the
  capture loop that each read a chunk, then \<open>stop_recording\<close>: the start empties the
  buffer, the K rounds leave exactly the K chunks in it in the order read, and this list
  of length K is what the stop hands to the encoder. The next \<open>start_recording\<close>
  empties the buffer again before any chunk of the next session is appended.
\<close>

theorem session_buffer_holds_captured_chunks:
  assumes "\<not> is_recording s" and "\<not> record_lock s" and "\<not> exit_event s"
  shows "\<exists>s1 s2 s3.
           start_recording (Returned ()) t0 s
             = Returns () [Log_RecordingStarted, Status_Recording] s1
         \<and> frames s1 = []
         \<and> record_audio (map (\<lambda>(d, c, t). (Returned d, c, t)) env) s1 = Returns () [] s2
         \<and> frames s2 = map fst env
         \<and> stop_recording (Returned ()) t1 s2
             = Returns () ([Log_RecordingStopped, Status_Recorded (t1 - t0)]
                           @ encode_and_dispatch (map fst env)) s3
         \<and> length (frames s2) = length env
         \<and> \<not> is_recording s3
         \<and> (\<exists>es s4. start_recording opened t2 s3 = Returns () es s4 \<and> frames s4 = [])"
proof -
  let ?s1 = "s\<lparr>is_recording := True, frames := [], stream := Some (Stream True),
                recording_start_time := t0\<rparr>"
  let ?s2 = "?s1\<lparr>frames := map fst env\<rparr>"
  let ?s3 = "?s2\<lparr>is_recording := False, stream := None\<rparr>"
  have a: "start_recording (Returned ()) t0 s
             = Returns () [Log_RecordingStarted, Status_Recording] ?s1"
    using assms by (simp add: start_recording_def with_record_lock_def)
  have b: "record_audio (map (\<lambda>(d, c, t). (Returned d, c, t)) env) ?s1 = Returns () [] ?s2"
    using assms capture_all [of ?s1 env] by simp
  have c: "stop_recording (Returned ()) t1 ?s2
             = Returns () ([Log_RecordingStopped, Status_Recorded (t1 - t0)]
                           @ encode_and_dispatch (map fst env)) ?s3"
    using assms by (simp add: stop_recording_def with_record_lock_def stop_section_def)
  have d: "\<exists>es s4. start_recording opened t2 ?s3 = Returns () es s4 \<and> frames s4 = []"
    using assms by (cases opened) (simp_all add: start_recording_def with_record_lock_def)
  show ?thesis
    using a b c d
    by - (rule exI [of _ ?s1], rule exI [of _ ?s2], rule exI [of _ ?s3], simp)
qed

theorem session_buffer_witness:
  "\<not> is_recording initial \<and> \<not> record_lock initial \<and> \<not> exit_event initial
   \<and> (\<exists>s1 s2 s3.
           start_recording (Returned ()) 0 initial
             = Returns () [Log_RecordingStarted, Status_Recording] s1
         \<and> frames s1 = []
         \<and> record_audio (map (\<lambda>(d, c, t). (Returned d, c, t))
                            [(silence, Raised, 1), ([], Raised, 2)]) s1
             = Returns () [] s2
         \<and> frames s2 = map fst [(silence, Raised :: unit attempt, 1 :: real), ([], Raised, 2)]
         \<and> stop_recording (Returned ()) 3 s2
             = Returns () ([Log_RecordingStopped, Status_Recorded (3 - 0)]
                           @ encode_and_dispatch
                               (map fst [(silence, Raised :: unit attempt, 1 :: real), ([], Raised, 2)])) s3
         \<and> length (frames s2) = length [(silence, Raised :: unit attempt, 1 :: real), ([], Raised, 2)]
         \<and> \<not> is_recording s3
         \<and> (\<exists>es s4. start_recording Raised 4 s3 = Returns () es s4 \<and> frames s4 = []))"
proof -
  have a: "\<not> is_recording initial" "\<not> record_lock initial" "\<not> exit_event initial"
    by (simp_all add: initial_def)
  note w = session_buffer_holds_captured_chunks
             [OF a, of 0 "[(silence, Raised, 1), ([], Raised, 2)]" 3 Raised 4]
  show ?thesis
    using a w by - (intro conjI, assumption+)
qed

section \<open>Shutdown\<close>

text \<open>
  Claim C3 as stated fails: a confirmed shutdown during a recording runs the whole of
  \<open>stop_recording\<close>, which starts the processing thread on the encoded session.
\<close>

theorem confirmed_shutdown_dispatches_session:
  "on_closing True (Returned ()) 1 session_one_chunk
     = Returns ()
         [Log_RecordingStopped, Status_Recorded 1,
          Thread_start (session_header chunk_bytes @ silence), Root_destroy]
         (session_one_chunk\<lparr>is_recording := False, stream := None, exit_event := True\<rparr>)"
proof -
  have "even (length (concat [silence]))" "36 + length (concat [silence]) < 2 ^ 32"
    by (simp_all add: silence_def chunk_bytes_value)
  from encode_and_dispatch_session [OF this]
  have "encode_and_dispatch [silence] = [Thread_start (session_header chunk_bytes @ silence)]"
    by (simp add: silence_def)
  then show ?thesis
    by (simp add: on_closing_def stop_recording_def with_record_lock_def stop_section_def
                  session_one_chunk_def session_open_def)
qed

text \<open>
  Claim C3, amended. On a confirmed shutdown while a session is active, \<open>on_closing\<close>
  runs \<open>stop_recording\<close> itself: it has exactly the effects and the resulting state of
  \<open>stop_recording\<close> (idle, \<open>stream\<close> cleared), then sets the exit event and destroys the
  window. So the session is dispatched whenever \<open>stop_recording\<close> dispatches it: in
  particular when the stream is open and closes without error and the buffer holds chunks
  of \<open>chunk_bytes\<close> bytes that keep the RIFF length field below \<open>2 ^ 32\<close>, the processing
  thread is started on the encoded session; when closing raises, the failure is reported
  and nothing is dispatched. When the user declines, nothing happens.
\<close>

theorem shutdown_while_recording:
  assumes "is_recording s" and "\<not> record_lock s"
  shows "(\<exists>es s'. stop_recording closing now s = Returns () es s'
            \<and> on_closing True closing now s
                = Returns () (es @ [Root_destroy]) (s'\<lparr>exit_event := True\<rparr>)
            \<and> \<not> is_recording s' \<and> stream s' = None)
         \<and> (stream s = Some (Stream True)
              \<and> (\<forall>c \<in> set (frames s). length c = chunk_bytes)
              \<and> 36 + chunk_bytes * length (frames s) < 2 ^ 32
            \<longrightarrow> on_closing True (Returned ()) now s
                = Returns ()
                    [Log_RecordingStopped, Status_Recorded (now - recording_start_time s),
                     Thread_start (session_header (chunk_bytes * length (frames s))
                                   @ concat (frames s)),
                     Root_destroy]
                    (s\<lparr>is_recording := False, stream := None, exit_event := True\<rparr>))
         \<and> on_closing True Raised now s
             = Returns () [Log_RecordingStopped, Error_StopFailed, Root_destroy]
                 (s\<lparr>is_recording := False, stream := None, exit_event := True\<rparr>)
         \<and> on_closing False closing now s = Returns () [] s"
proof -
  obtain es s' where st: "stop_recording closing now s = Returns () es s'"
    and idle: "\<not> is_recording s'" "stream s' = None"
    using stop_recording_idle [OF assms, of now closing] by blast
  have general: "\<exists>es s'. stop_recording closing now s = Returns () es s'
            \<and> on_closing True closing now s
                = Returns () (es @ [Root_destroy]) (s'\<lparr>exit_event := True\<rparr>)
            \<and> \<not> is_recording s' \<and> stream s' = None"
    using st idle assms(1) by (simp add: on_closing_def)
  have dispatched: "on_closing True (Returned ()) now s
                = Returns ()
                    [Log_RecordingStopped, Status_Recorded (now - recording_start_time s),
                     Thread_start (session_header (chunk_bytes * length (frames s))
                                   @ concat (frames s)),
                     Root_destroy]
                    (s\<lparr>is_recording := False, stream := None, exit_event := True\<rparr>)"
    if op: "stream s = Some (Stream True)"
      and ch: "\<forall>c \<in> set (frames s). length c = chunk_bytes"
      and bd: "36 + chunk_bytes * length (frames s) < 2 ^ 32"
  proof -
    have len: "length (concat (frames s)) = chunk_bytes * length (frames s)"
      using ch by (rule length_concat_chunks)
    then have "even (length (concat (frames s)))" by (simp add: chunk_bytes_value)
    moreover have "36 + length (concat (frames s)) < 2 ^ 32" using bd len by simp
    ultimately have "encode_and_dispatch (frames s)
        = [Thread_start (session_header (chunk_bytes * length (frames s)) @ concat (frames s))]"
      using encode_and_dispatch_session [of "frames s"] len by simp
    then show ?thesis
      using assms op
      by (simp add: on_closing_def stop_recording_def with_record_lock_def stop_section_def)
  qed
  have failed: "on_closing True Raised now s
             = Returns () [Log_RecordingStopped, Error_StopFailed, Root_destroy]
                 (s\<lparr>is_recording := False, stream := None, exit_event := True\<rparr>)"
    using stop_recording_idle [OF assms, of now closing] assms(1) by (simp add: on_closing_def)
  have declined: "on_closing False closing now s = Returns () [] s"
    using assms(1) by (simp add: on_closing_def)
  from general dispatched failed declined show ?thesis by blast
qed

theorem shutdown_while_recording_witness:
  "is_recording session_one_chunk \<and> \<not> record_lock session_one_chunk
   \<and> stream session_one_chunk = Some (Stream True)
   \<and> frames session_one_chunk = [silence] \<and> length silence = chunk_bytes
   \<and> 36 + chunk_bytes * length (frames session_one_chunk) < 2 ^ 32
   \<and> on_closing True (Returned ()) 5 session_one_chunk
       = Returns ()
           [Log_RecordingStopped, Status_Recorded 5,
            Thread_start (session_header chunk_bytes @ silence), Root_destroy]
           (session_one_chunk\<lparr>is_recording := False, stream := None, exit_event := True\<rparr>)
   \<and> on_closing True Raised 5 session_one_chunk
       = Returns () [Log_RecordingStopped, Error_StopFailed, Root_destroy]
           (session_one_chunk\<lparr>is_recording := False, stream := None, exit_event := True\<rparr>)
   \<and> on_closing False (Returned ()) 5 session_one_chunk = Returns () [] session_one_chunk"
proof -
  have a: "is_recording session_one_chunk" "\<not> record_lock session_one_chunk"
    by (simp_all add: session_one_chunk_def session_open_def)
  have o: "stream session_one_chunk = Some (Stream True)"
    by (simp add: session_one_chunk_def session_open_def)
  have f: "frames session_one_chunk = [silence]"
    by (simp add: session_one_chunk_def session_open_def)
  have l: "length silence = chunk_bytes" by (simp add: silence_def)
  have b: "\<forall>c \<in> set (frames session_one_chunk). length c = chunk_bytes"
    by (simp add: f l)
  have c: "36 + chunk_bytes * length (frames session_one_chunk) < 2 ^ 32"
    by (simp add: f chunk_bytes_value)
  have t: "recording_start_time session_one_chunk = 0"
    by (simp add: session_one_chunk_def session_open_def)
  from shutdown_while_recording [OF a, of "Returned ()" 5] a o f l b c t
  show ?thesis by simp
qed

section \<open>Properties of the processing pipeline\<close>

text \<open>In a run whose transcription request raises, or returns a falsy value or one
  without a \<open>text\<close> attribute, no translation request is made.\<close>

lemma failed_request_is_not_translated:
  assumes "transcribed = Inl e
           \<or> (\<exists>r. transcribed = Inr r \<and> (\<not> is_truthy r \<or> text_attr r = None))"
  shows "Call_translation t \<notin> set (process_audio audio_data transcribed reply)"
  using assms
  by (auto simp: process_audio_def
           split: sum.splits option.splits request_error.splits attempt.splits)

text \<open>
  Claim C7 (the code does not do this). A transcription that comes back with an empty
  text is an empty transcription result, and the claim has the run stop there. The
  test at line 87 looks at the response object and at the presence of the attribute, not
  at the text; the run prints the empty text and sends it to the translation service.
\<close>

theorem empty_transcription_is_translated:
  "process_audio [1] (Inr (Response True (Some (Py_str '''')))) (Returned ''Hello.'')
     = [Call_transcription [1], Log_YouSaid (Py_str ''''), Call_translation (Py_str ''''),
        Log_Translated ''Hello.'', Log_TotalDuration, Buffer_close]
   \<and> Call_translation (Py_str '''')
       \<in> set (process_audio [1] (Inr (Response True (Some (Py_str '''')))) (Returned ''Hello.''))"
  by (simp add: process_audio_def translate_text_def strip_def is_space_def)

section \<open>The invariant of the lock\<close>

lemma start_keeps_invariant:
  assumes "open_while_recording s" and "start_recording opened now s = Returns v es s'"
  shows "open_while_recording s' \<and> \<not> record_lock s'"
  using assms
  by (auto simp: start_recording_def with_record_lock_def open_while_recording_def Let_def
           split: if_splits attempt.splits)

lemma stop_keeps_invariant:
  assumes "open_while_recording s" and "stop_recording closing now s = Returns v es s'"
  shows "open_while_recording s' \<and> \<not> record_lock s'"
  using assms
  by (auto simp: stop_recording_def with_record_lock_def stop_section_def
                 open_while_recording_def Let_def
           split: if_splits attempt.splits option.splits)

lemma capture_keeps_invariant:
  assumes "open_while_recording s" and "record_audio_round rd closing now s = Returns v es s'"
  shows "open_while_recording s' \<and> \<not> record_lock s'"
  using assms
  by (auto simp: record_audio_round_def with_record_lock_def stop_recording_lock_held
                 open_while_recording_def
           split: if_splits attempt.splits option.splits stream_obj.splits bool.splits)

lemma on_closing_keeps_invariant:
  assumes "open_while_recording s" and "\<not> record_lock s"
      and "on_closing confirmed closing now s = Returns v es s'"
  shows "open_while_recording s' \<and> \<not> record_lock s'"
proof (cases "is_recording s \<and> confirmed")
  case True
  then obtain es1 s1 where st: "stop_recording closing now s = Returns () es1 s1"
    and s': "s' = s1\<lparr>exit_event := True\<rparr>"
    using assms(3) by (auto simp: on_closing_def split: outcome.splits)
  from stop_keeps_invariant [OF assms(1) st] s' show ?thesis
    by (simp add: open_while_recording_def)
next
  case False
  then show ?thesis
    using assms by (auto simp: on_closing_def open_while_recording_def split: if_splits)
qed

lemma perform_keeps_invariant:
  assumes "open_while_recording s" and "\<not> record_lock s"
      and "perform c s = Returns v es s'"
  shows "open_while_recording s' \<and> \<not> record_lock s'"
  using assms
  by (cases c)
     (auto dest: start_keeps_invariant stop_keeps_invariant capture_keeps_invariant
                 on_closing_keeps_invariant)

lemma perform_all_keeps_invariant:
  assumes "open_while_recording s" and "\<not> record_lock s"
      and "perform_all cs s = Returns v es s'"
  shows "open_while_recording s' \<and> \<not> record_lock s'"
  using assms
proof (induction cs arbitrary: s es v)
  case Nil
  then show ?case by simp
next
  case (Cons c cs)
  from Cons.prems(3) obtain v1 es1 s1 v2 es2 where
    p: "perform c s = Returns v1 es1 s1" and r: "perform_all cs s1 = Returns v2 es2 s'"
    by (auto split: outcome.splits)
  from perform_keeps_invariant [OF Cons.prems(1,2) p]
  have "open_while_recording s1" "\<not> record_lock s1" by simp_all
  then show ?case using r by (rule Cons.IH)
qed

lemma main_finally_matches:
  assumes "open_while_recording s" and "\<not> record_lock s"
  shows "\<exists>es' s'. main_finally closing s = Returns () es' s' \<and> handle_matches_flag s'"
  using assms
  by (cases closing; cases "is_recording s")
     (auto simp: main_finally_def with_record_lock_def open_while_recording_def
                 handle_matches_flag_def)

text \<open>
  After every sequence of \<open>start_recording\<close>, \<open>stop_recording\<close>, \<open>on_closing\<close> and
  capture rounds from the initial state the lock is free and, while recording, \<open>stream\<close>
  is an open stream, while idle it is \<open>None\<close>.
\<close>

lemma reachable_states_invariant:
  assumes "perform_all cs initial = Returns v es s"
  shows "open_while_recording s \<and> \<not> record_lock s"
proof -
  have "open_while_recording initial" "\<not> record_lock initial"
    by (simp_all add: open_while_recording_def initial_def)
  from perform_all_keeps_invariant [OF this assms] show ?thesis .
qed

text \<open>
  Claim C10 (the code does not do this). The release of the lock in the \<open>finally\<close> clause
  of \<open>main\<close> breaks the invariant: when the main loop ends during a recording, the clause
  closes the stream but, unlike \<open>stop_recording\<close>, resets neither \<open>stream\<close> nor
  \<open>is_recording\<close>. The state it leaves is recording with a closed stream, and the capture
  round that follows passes the test \<open>is_recording and stream is not None\<close> and reads
  from the closed stream (the read raises, and the round ends as in claim C1).
\<close>

theorem cleanup_leaves_closed_handle:
  "perform_all [Start_recording (Returned ()) 0] initial
     = Returns () [Log_RecordingStarted, Status_Recording] session_open
   \<and> main_finally (Returned ()) session_open
       = Returns () [PyAudio_terminate] (session_open\<lparr>stream := Some (Stream False)\<rparr>)
   \<and> is_recording (session_open\<lparr>stream := Some (Stream False)\<rparr>)
   \<and> \<not> open_while_recording (session_open\<lparr>stream := Some (Stream False)\<rparr>)
   \<and> record_audio_round (Returned silence) Raised 1
        (session_open\<lparr>stream := Some (Stream False)\<rparr>)
       = Deadlock (session_open\<lparr>stream := Some (Stream False), record_lock := True\<rparr>)"
  by (simp add: start_recording_def with_record_lock_def initial_def session_open_def
                main_finally_def open_while_recording_def record_audio_round_def
                stop_recording_lock_held)

end
